theory Spec2Isabelle
  imports Main
begin

section \<open>Errors and promises\<close>

text \<open>
  The LDAP authentication plugin (\<^verbatim>\<open>AuthLdap\<close>) throws plain \<^verbatim>\<open>Error\<close> objects
  of its own in two places and lets the errors of the ldapjs client and of the file
  system pass through.  The plugin never inspects an error beyond its message, so the
  model keeps one constructor per origin:
  \<^item> \<open>InvalidVariable name\<close> is \<^verbatim>\<open>new Error('invalid variable: ' + name)\<close>;
  \<^item> \<open>SearchFailed status\<close> is
    \<^verbatim>\<open>new Error('unexpected search response status: ' + status)\<close>;
  \<^item> \<open>TypeError\<close> is what JavaScript raises when a method is read from \<^verbatim>\<open>undefined\<close>;
  \<^item> \<open>BindRejected\<close>, \<open>ConnectionError\<close> and \<open>OtherError\<close> are errors handed over by
    the library (a protocol rejection of a bind, a transport failure, anything else),
    each with its message.
\<close>

datatype error =
    InvalidVariable string
  | SearchFailed nat
  | TypeError
  | BindRejected string
  | ConnectionError string
  | OtherError string

text \<open>
  An awaited operation resolves with a value, rejects with an error, or never settles.
  A function that awaits a promise that never settles does not continue: neither its
  remaining statements nor its \<^verbatim>\<open>finally\<close> block run.
\<close>

datatype 'a promise = Resolved 'a | Rejected error | Pending

section \<open>The filter template\<close>

text \<open>
  Modelled from the spec: \<^verbatim>\<open>escape\<close> is imported from the ldapjs library
  (\<^verbatim>\<open>ldapjs/lib/filters/escape\<close>), which is not part of the source tree.  Following
  the characters that section 4.1 names for the query language, each parenthesis,
  asterisk, backslash and null byte of the value is replaced by a backslash and the two
  hexadecimal digits of its code; every other character is kept.
\<close>

definition escape_char :: "char \<Rightarrow> string" where
  "escape_char c =
     (if c = CHR ''*'' then [CHR 0x5C, CHR ''2'', CHR ''a'']
      else if c = CHR ''('' then [CHR 0x5C, CHR ''2'', CHR ''8'']
      else if c = CHR '')'' then [CHR 0x5C, CHR ''2'', CHR ''9'']
      else if c = CHR 0x5C then [CHR 0x5C, CHR ''5'', CHR ''c'']
      else if c = CHR 0x00 then [CHR 0x5C, CHR ''0'', CHR ''0'']
      else [c])"

definition escape :: "string \<Rightarrow> string" where
  "escape inp = concat (map escape_char inp)"

text \<open>
  \<^verbatim>\<open>const VAR_RE = /\{\{([^}]+)\}\}/g\<close>.  One attempt to match the expression at the
  start of a string: two opening braces, then the longest run of characters other than
  a closing brace, which must not be empty, then two closing braces.  The run is
  greedy, and giving a character back cannot help, since the character given back is
  not a closing brace.  The result is the captured name and the text after the match.
\<close>

definition VAR_RE_match :: "string \<Rightarrow> (string \<times> string) option" where
  "VAR_RE_match s =
     (case s of
        a # b # t \<Rightarrow>
          if a = CHR ''{'' \<and> b = CHR ''{'' then
            (let name = takeWhile (\<lambda>c. c \<noteq> CHR ''}'') t;
                 r = dropWhile (\<lambda>c. c \<noteq> CHR ''}'') t
             in if name \<noteq> [] \<and> take 2 r = ''}}'' then Some (name, drop 2 r) else None)
          else None
      | _ \<Rightarrow> None)"

lemma VAR_RE_match_shorter:
  "VAR_RE_match s = Some (name, rest) \<Longrightarrow> length rest < length s"
proof -
  assume m: "VAR_RE_match s = Some (name, rest)"
  then obtain a b t where s: "s = a # b # t"
    by (cases s; cases "tl s") (auto simp: VAR_RE_match_def)
  from m s have "rest = drop 2 (dropWhile (\<lambda>c. c \<noteq> CHR ''}'') t)"
    by (auto simp: VAR_RE_match_def Let_def split: if_splits)
  moreover have "length (dropWhile (\<lambda>c. c \<noteq> CHR ''}'') t) \<le> length t"
    by (rule length_dropWhile_le)
  ultimately show ?thesis using s by simp
qed

text \<open>
  \<^verbatim>\<open>String.prototype.replace\<close> with a global expression scans the string from
  left to right: where the expression matches, the match becomes one segment and the
  scan goes on after it; elsewhere one character is kept and the scan moves by one.
\<close>

datatype segment = Lit char | Var string

function VAR_RE_scan :: "string \<Rightarrow> segment list" where
  "VAR_RE_scan [] = []"
| "VAR_RE_scan (c # s) =
     (case VAR_RE_match (c # s) of
        Some (name, rest) \<Rightarrow> Var name # VAR_RE_scan rest
      | None \<Rightarrow> Lit c # VAR_RE_scan s)"
  by pat_completeness auto
termination
  by (relation "measure length") (auto dest: VAR_RE_match_shorter)

text \<open>
  The replacer function is then called on each match in order; a call that throws
  ends the whole replacement with that error; otherwise its result takes the place of
  the match.
\<close>

fun replace_segments :: "(string \<Rightarrow> error + string) \<Rightarrow> segment list \<Rightarrow> error + string" where
  "replace_segments f [] = Inr []"
| "replace_segments f (Lit c # segs) =
     (case replace_segments f segs of Inl e \<Rightarrow> Inl e | Inr out \<Rightarrow> Inr (c # out))"
| "replace_segments f (Var name # segs) =
     (case f name of
        Inl e \<Rightarrow> Inl e
      | Inr r \<Rightarrow> (case replace_segments f segs of Inl e \<Rightarrow> Inl e | Inr out \<Rightarrow> Inr (r @ out)))"

text \<open>
  \<^verbatim>\<open>s.replace(VAR_RE, f)\<close>: the scan, then the replacer on each match.
\<close>

definition replace_VAR_RE :: "(string \<Rightarrow> error + string) \<Rightarrow> string \<Rightarrow> error + string" where
  "replace_VAR_RE f s = replace_segments f (VAR_RE_scan s)"

text \<open>
  \<^verbatim>\<open>evalFilter (filter, vars)\<close>.  The variable set is a map from names to string
  values; \<open>vars name = None\<close> stands for \<^verbatim>\<open>vars[name] === undefined\<close>.  The
  lookup of a JavaScript object also finds what the object inherits (\<^verbatim>\<open>constructor\<close>,
  \<^verbatim>\<open>toString\<close> and the like); these are no strings and no values of the variable
  set, and templates that name them are outside the model.  Strings are lists of
  characters; nothing below depends on the size of a character.
\<close>

definition evalFilter :: "string \<Rightarrow> (string \<rightharpoonup> string) \<Rightarrow> error + string" where
  "evalFilter filter_tpl vars =
     replace_VAR_RE
       (\<lambda>name. case vars name of
                 None \<Rightarrow> Inl (InvalidVariable name)
               | Some v \<Rightarrow> Inr (escape v))
       filter_tpl"








section \<open>Configuration\<close>

text \<open>
  The configuration object.  The schema requires \<^verbatim>\<open>uri\<close> and \<^verbatim>\<open>base\<close>; the other
  properties may be absent (\<open>None\<close> is \<^verbatim>\<open>undefined\<close>).  The property \<^verbatim>\<open>filter\<close> is
  the field \<open>filter'\<close> here.
\<close>

record bind_credentials =
  dn :: string
  password :: string

record conf =
  uri :: string
  certificateAuthorities :: "string list option"
  checkCertificate :: "bool option"
  bind :: "bind_credentials option"
  base :: string
  filter' :: "string option"

text \<open>\<^verbatim>\<open>const DEFAULTS = { checkCertificate: true, filter: '(uid={{name}})' }\<close>\<close>

definition DEFAULTS_checkCertificate :: bool where
  "DEFAULTS_checkCertificate = True"

definition DEFAULTS_filter :: string where
  "DEFAULTS_filter = ''(uid={{name}})''"

record tls_options =
  rejectUnauthorized :: bool
  ca :: "string list option"

record client_options =
  url :: string
  maxConnections :: nat
  bindDN :: "string option"
  bindCredentials :: "string option"
  tlsOptions :: tls_options

text \<open>
  The fields of the plugin object that \<^verbatim>\<open>configure\<close> assigns; all of them are
  \<^verbatim>\<open>undefined\<close> on a fresh object.
\<close>

record AuthLdap =
  clientOpts :: "client_options option"
  credentials :: "bind_credentials option"
  searchBase :: "string option"
  searchFilter :: "string option"

definition new_AuthLdap :: AuthLdap where
  "new_AuthLdap =
     \<lparr>clientOpts = None, credentials = None, searchBase = None, searchFilter = None\<rparr>"

text \<open>
  \<^verbatim>\<open>Promise.all\<close>: rejected as soon as one member is rejected, resolved once all
  are, pending otherwise.  When several members are rejected, the one that rejects first
  in time wins; the model takes the first in the order of the list.
\<close>

fun promise_all :: "'a promise list \<Rightarrow> 'a list promise" where
  "promise_all [] = Resolved []"
| "promise_all (p # ps) =
     (case p of
        Rejected e \<Rightarrow> Rejected e
      | Resolved v \<Rightarrow>
          (case promise_all ps of
             Resolved vs \<Rightarrow> Resolved (v # vs)
           | Rejected e \<Rightarrow> Rejected e
           | Pending \<Rightarrow> Pending)
      | Pending \<Rightarrow>
          (case promise_all ps of
             Rejected e \<Rightarrow> Rejected e
           | _ \<Rightarrow> Pending))"

text \<open>
  \<^verbatim>\<open>async configure (conf)\<close>.  The file system is a parameter: \<open>readFile path\<close> is
  the outcome of \<^verbatim>\<open>readFile (path)\<close>, the function of \<^verbatim>\<open>fs\<close> called with the path
  alone, as one member of \<^verbatim>\<open>Promise.all\<close> (the content of the file, an error, or no
  answer at all; an error thrown by the call itself rejects the promise of
  \<^verbatim>\<open>configure\<close> just as a rejected member does).  The
  client options are assigned to the plugin before the files are read, with
  \<^verbatim>\<open>rejectUnauthorized\<close> already set; the three search fields are assigned after the
  \<^verbatim>\<open>await\<close>, so a failed read leaves them as they were.  The result is the outcome
  of the returned promise and the plugin after the call.
\<close>

definition configure ::
  "(string \<Rightarrow> string promise) \<Rightarrow> conf \<Rightarrow> AuthLdap \<Rightarrow> unit promise \<times> AuthLdap" where
  "configure readFile c this =
     (let check = (case checkCertificate c of
                     None \<Rightarrow> DEFAULTS_checkCertificate
                   | Some b \<Rightarrow> b);
          opts = \<lparr>url = uri c, maxConnections = 5,
                  bindDN = (case bind c of None \<Rightarrow> None | Some b \<Rightarrow> Some (dn b)),
                  bindCredentials = (case bind c of None \<Rightarrow> None | Some b \<Rightarrow> Some (password b)),
                  tlsOptions = \<lparr>rejectUnauthorized = check, ca = None\<rparr>\<rparr>;
          this1 = this\<lparr>clientOpts := Some opts\<rparr>;
          assign = (\<lambda>this2.
            (Resolved (),
             this2\<lparr>credentials := bind c,
                    searchBase := Some (base c),
                    searchFilter := Some (case filter' c of
                                            None \<Rightarrow> DEFAULTS_filter
                                          | Some f \<Rightarrow> f)\<rparr>))
      in case certificateAuthorities c of
           None \<Rightarrow> assign this1
         | Some paths \<Rightarrow>
             (case promise_all (map readFile paths) of
                Rejected e \<Rightarrow> (Rejected e, this1)
              | Pending \<Rightarrow> (Pending, this1)
              | Resolved files \<Rightarrow>
                  assign (this\<lparr>clientOpts :=
                    Some (opts\<lparr>tlsOptions :=
                      \<lparr>rejectUnauthorized = check, ca = Some files\<rparr>\<rparr>)\<rparr>)))"

section \<open>Authentication\<close>

text \<open>
  A directory entry as the search delivers it (\<^verbatim>\<open>entry.json\<close>): its distinguished
  name and its attributes.
\<close>

record entry =
  objectName :: string
  attributes :: "(string \<times> string list) list"

text \<open>
  The response of a search: the \<^verbatim>\<open>searchEntry\<close> events in the order of their
  arrival, and how the response ends: an \<^verbatim>\<open>end\<close> event with a status, an
  \<^verbatim>\<open>error\<close> event, or neither.
\<close>

record search_response =
  searchEntries :: "entry list"
  end_event :: "nat promise"

text \<open>
  The ldapjs client and the server behind it are a parameter of the model.
  \<^item> \<open>createClient_throws opts\<close> is the error \<^verbatim>\<open>createClient\<close> throws on these
    options, if it throws.
  \<^item> \<open>connect\<close> is the outcome of waiting for the \<^verbatim>\<open>connect\<close> event.
  \<^item> \<open>bind_reply k dn pw\<close> is the outcome of \<^verbatim>\<open>bind (dn, pw)\<close> when \<open>k\<close> binds
    have been made on this client before.
  \<^item> \<open>search_reply base filter\<close> is the outcome of \<^verbatim>\<open>search\<close> with scope
    \<^verbatim>\<open>sub\<close>.
\<close>

record ldap =
  createClient_throws :: "client_options option \<Rightarrow> error option"
  connect :: "unit promise"
  bind_reply :: "nat \<Rightarrow> string \<Rightarrow> string \<Rightarrow> unit promise"
  search_reply :: "string option \<Rightarrow> string \<Rightarrow> search_response promise"

text \<open>
  What a call does to the outside, in order: the calls on the library and the messages
  given to the logger.  The logger is a sink; its messages are kept by their template
  and arguments.
\<close>

datatype log_message =
    RequireCredentials
  | AttemptServiceBind string
  | ServiceBound string
  | Searching
  | EntryReceived
  | EntriesFound nat
  | AttemptBind string
  | Bound string string
  | EntryDump entry
  | BindFailed string error
  | CouldNotAuthenticate string

datatype event =
    CreateClient "client_options option"
  | AwaitConnect
  | Bind string string
  | Search "string option" string
  | Unbind
  | Log log_message

text \<open>
  A step of an asynchronous function: the events it caused and the outcome of what it
  awaited.  \<open>and_then\<close> runs the next step only after a resolved one, as a sequence of
  \<^verbatim>\<open>await\<close> statements does.
\<close>

type_synonym 'a step = "event list \<times> 'a promise"

definition and_then :: "'a step \<Rightarrow> ('a \<Rightarrow> 'b step) \<Rightarrow> 'b step" where
  "and_then m f =
     (case m of
        (tr, Resolved v) \<Rightarrow> (case f v of (tr', r) \<Rightarrow> (tr @ tr', r))
      | (tr, Rejected e) \<Rightarrow> (tr, Rejected e)
      | (tr, Pending) \<Rightarrow> (tr, Pending))"

text \<open>
  The bind with the configured credentials, if there are any.  The result is the number
  of binds made so far.
\<close>

definition service_bind :: "ldap \<Rightarrow> AuthLdap \<Rightarrow> nat step" where
  "service_bind client this =
     (case credentials this of
        None \<Rightarrow> ([], Resolved 0)
      | Some c \<Rightarrow>
          (case bind_reply client 0 (dn c) (password c) of
             Resolved u \<Rightarrow>
               ([Log (AttemptServiceBind (dn c)), Bind (dn c) (password c),
                 Log (ServiceBound (dn c))], Resolved 1)
           | Rejected e \<Rightarrow>
               ([Log (AttemptServiceBind (dn c)), Bind (dn c) (password c)], Rejected e)
           | Pending \<Rightarrow>
               ([Log (AttemptServiceBind (dn c)), Bind (dn c) (password c)], Pending)))"

text \<open>
  The search for the user.  The filter is rendered before \<^verbatim>\<open>search\<close> is called, so
  a rendering error leaves no search behind; reading \<^verbatim>\<open>replace\<close> from an
  unconfigured filter is a \<open>TypeError\<close>.  A status other than zero at the end of the
  response is thrown as an error.
\<close>

definition search_user :: "ldap \<Rightarrow> AuthLdap \<Rightarrow> string \<Rightarrow> entry list step" where
  "search_user client this username =
     (case (case searchFilter this of
              None \<Rightarrow> Inl TypeError
            | Some f \<Rightarrow> evalFilter f [''name'' \<mapsto> username]) of
        Inl e \<Rightarrow> ([Log Searching], Rejected e)
      | Inr flt \<Rightarrow>
          (case search_reply client (searchBase this) flt of
             Rejected e \<Rightarrow> ([Log Searching, Search (searchBase this) flt], Rejected e)
           | Pending \<Rightarrow> ([Log Searching, Search (searchBase this) flt], Pending)
           | Resolved response \<Rightarrow>
               (let entries = searchEntries response;
                    tr = [Log Searching, Search (searchBase this) flt]
                           @ map (\<lambda>e. Log EntryReceived) entries
                in case end_event response of
                     Rejected e \<Rightarrow> (tr, Rejected e)
                   | Pending \<Rightarrow> (tr, Pending)
                   | Resolved status \<Rightarrow>
                       if status \<noteq> 0 then (tr, Rejected (SearchFailed status))
                       else (tr @ [Log (EntriesFound (length entries))], Resolved entries))))"

text \<open>
  The loop over the entries, from the \<open>k\<close>-th bind of the client on.  The \<^verbatim>\<open>catch\<close>
  of the loop body has no condition; after the loop comes the last message and
  \<^verbatim>\<open>return null\<close>.  The result \<open>Some username\<close> is \<^verbatim>\<open>{ username }\<close>, and \<open>None\<close>
  is \<^verbatim>\<open>null\<close>.
\<close>

fun try_entries :: "ldap \<Rightarrow> nat \<Rightarrow> string \<Rightarrow> string \<Rightarrow> entry list \<Rightarrow> string option step" where
  "try_entries client k username pw [] =
     ([Log (CouldNotAuthenticate username)], Resolved None)"
| "try_entries client k username pw (entry # entries) =
     (case bind_reply client k (objectName entry) pw of
        Resolved u \<Rightarrow>
          ([Log (AttemptBind (objectName entry)), Bind (objectName entry) pw,
            Log (Bound (objectName entry) username), Log (EntryDump entry)],
           Resolved (Some username))
      | Rejected error \<Rightarrow>
          (case try_entries client (Suc k) username pw entries of
             (tr, r) \<Rightarrow>
               (Log (AttemptBind (objectName entry)) # Bind (objectName entry) pw
                  # Log (BindFailed (objectName entry) error) # tr, r))
      | Pending \<Rightarrow>
          ([Log (AttemptBind (objectName entry)), Bind (objectName entry) pw], Pending))"

text \<open>The body of the \<^verbatim>\<open>try\<close> block.\<close>

definition try_block :: "ldap \<Rightarrow> AuthLdap \<Rightarrow> string \<Rightarrow> string \<Rightarrow> string option step" where
  "try_block client this username pw =
     and_then ([AwaitConnect], connect client) (\<lambda>u.
     and_then (service_bind client this) (\<lambda>k.
     and_then (search_user client this username) (\<lambda>entries.
     try_entries client k username pw entries)))"

text \<open>
  \<^verbatim>\<open>async _authenticate ({ username, password }, logger = noop)\<close>.  A property of
  the credentials that is absent is \<open>None\<close>; the property \<^verbatim>\<open>password\<close> is the
  field \<open>user_password\<close>, the name \<open>password\<close> being taken by the bind
  configuration.  \<^verbatim>\<open>createClient\<close> is called outside
  the \<^verbatim>\<open>try\<close>; the \<^verbatim>\<open>finally\<close> block runs when the body returns or throws.
\<close>

record user_credentials =
  username :: "string option"
  user_password :: "string option"

definition authenticate :: "ldap \<Rightarrow> AuthLdap \<Rightarrow> user_credentials \<Rightarrow> string option step" where
  "authenticate client this creds =
     (case (username creds, user_password creds) of
        (Some name, Some pw) \<Rightarrow>
          (case createClient_throws client (clientOpts this) of
             Some e \<Rightarrow> ([CreateClient (clientOpts this)], Rejected e)
           | None \<Rightarrow>
               (case try_block client this name pw of
                  (tr, Pending) \<Rightarrow> (CreateClient (clientOpts this) # tr, Pending)
                | (tr, r) \<Rightarrow> (CreateClient (clientOpts this) # tr @ [Unbind], r)))
      | _ \<Rightarrow> ([Log RequireCredentials], Resolved None))"

text \<open>The binds of a trace that come after its search: the binds of the loop.\<close>

definition is_search :: "event \<Rightarrow> bool" where
  "is_search e = (case e of Search b f \<Rightarrow> True | _ \<Rightarrow> False)"

definition is_bind :: "event \<Rightarrow> bool" where
  "is_bind e = (case e of Bind d p \<Rightarrow> True | _ \<Rightarrow> False)"

definition is_create :: "event \<Rightarrow> bool" where
  "is_create e = (case e of CreateClient opts \<Rightarrow> True | _ \<Rightarrow> False)"

definition is_bound :: "event \<Rightarrow> bool" where
  "is_bound e = (case e of Log (Bound d u) \<Rightarrow> True | _ \<Rightarrow> False)"

definition binds_after_search :: "event list \<Rightarrow> event list" where
  "binds_after_search tr = filter is_bind (dropWhile (\<lambda>e. \<not> is_search e) tr)"

text \<open>
  What a session has met when it stands at the end of its search: the client was
  created, the connection came up, the bind with the configured credentials (if any) was
  accepted, which makes \<open>k\<close> binds so far, the filter was rendered, and the search
  delivered \<open>entries\<close> and ended with \<open>status\<close>.
\<close>

definition service_bound :: "ldap \<Rightarrow> AuthLdap \<Rightarrow> nat \<Rightarrow> bool" where
  "service_bound client this k =
     (case credentials this of
        None \<Rightarrow> k = 0
      | Some c \<Rightarrow> bind_reply client 0 (dn c) (password c) = Resolved () \<and> k = 1)"

definition search_ends :: "ldap \<Rightarrow> AuthLdap \<Rightarrow> string \<Rightarrow> entry list \<Rightarrow> nat \<Rightarrow> bool" where
  "search_ends client this name entries status =
     (case searchFilter this of
        None \<Rightarrow> False
      | Some f \<Rightarrow>
          (case evalFilter f [''name'' \<mapsto> name] of
             Inl e \<Rightarrow> False
           | Inr flt \<Rightarrow>
               (case search_reply client (searchBase this) flt of
                  Resolved response \<Rightarrow>
                    searchEntries response = entries \<and> end_event response = Resolved status
                | _ \<Rightarrow> False)))"

definition session_searched ::
  "ldap \<Rightarrow> AuthLdap \<Rightarrow> string \<Rightarrow> nat \<Rightarrow> entry list \<Rightarrow> nat \<Rightarrow> bool" where
  "session_searched client this name k entries status \<longleftrightarrow>
     createClient_throws client (clientOpts this) = None \<and>
     connect client = Resolved () \<and>
     service_bound client this k \<and>
     search_ends client this name entries status"


section \<open>A directory to run the plugin against\<close>

text \<open>
  The scenario of the specification: a service account \<open>svc\<close>, the base \<open>dc=x\<close>, and
  a search that finds three entries, of which only the second accepts the password
  \<open>secret\<close>.  The variants differ from it in one answer each: a server that accepts a
  bind with an empty password (the unauthenticated bind of RFC 4513), a connection that
  breaks on the bind of the first entry, a search that ends with status 32, and a
  configuration with a certificate file.
\<close>

definition example_conf :: conf where
  "example_conf =
     \<lparr>uri = ''ldap://host'', certificateAuthorities = None, checkCertificate = None,
      bind = Some \<lparr>dn = ''svc'', password = ''p''\<rparr>, base = ''dc=x'', filter' = None\<rparr>"

definition example_plugin :: AuthLdap where
  "example_plugin = snd (configure (\<lambda>path. Pending) example_conf new_AuthLdap)"

definition example_entries :: "entry list" where
  "example_entries =
     [\<lparr>objectName = ''uid=alice,dc=x'', attributes = []\<rparr>,
      \<lparr>objectName = ''uid=alice2,dc=x'', attributes = []\<rparr>,
      \<lparr>objectName = ''uid=alice3,dc=x'', attributes = []\<rparr>]"

definition example_ldap :: ldap where
  "example_ldap =
     \<lparr>createClient_throws = (\<lambda>opts. None),
      connect = Resolved (),
      bind_reply = (\<lambda>k d p.
        if d = ''svc'' \<and> p = ''p'' then Resolved ()
        else if d = ''uid=alice2,dc=x'' \<and> p = ''secret'' then Resolved ()
        else Rejected (BindRejected ''Invalid Credentials'')),
      search_reply = (\<lambda>b f.
        Resolved \<lparr>searchEntries = example_entries, end_event = Resolved 0\<rparr>)\<rparr>"

definition unauthenticated_bind_ldap :: ldap where
  "unauthenticated_bind_ldap =
     example_ldap\<lparr>bind_reply := (\<lambda>k d p.
       if p = [] then Resolved () else bind_reply example_ldap k d p)\<rparr>"

definition broken_connection_ldap :: ldap where
  "broken_connection_ldap =
     example_ldap\<lparr>bind_reply := (\<lambda>k d p.
       if d = ''uid=alice,dc=x'' then Rejected (ConnectionError ''ECONNRESET'')
       else bind_reply example_ldap k d p)\<rparr>"

definition failed_search_ldap :: ldap where
  "failed_search_ldap =
     example_ldap\<lparr>search_reply := (\<lambda>b f.
       Resolved \<lparr>searchEntries = example_entries, end_event = Resolved 32\<rparr>)\<rparr>"


section \<open>The placeholder expression\<close>

text \<open>
  The expression matches at the start of a string exactly when the string begins with
  a placeholder: two opening braces, a name that is not empty and holds no closing
  brace, two closing braces.
\<close>

lemma VAR_RE_match_form:
  "VAR_RE_match s = Some (name, rest) \<longleftrightarrow>
     s = ''{{'' @ name @ ''}}'' @ rest \<and> name \<noteq> [] \<and> CHR ''}'' \<notin> set name"
proof
  assume m: "VAR_RE_match s = Some (name, rest)"
  then obtain t where s: "s = CHR ''{'' # CHR ''{'' # t"
    by (cases s; cases "tl s") (auto simp: VAR_RE_match_def split: if_splits)
  let ?P = "\<lambda>c. c \<noteq> CHR ''}''"
  from m s have n: "name = takeWhile ?P t" and ne: "name \<noteq> []"
    and k: "take 2 (dropWhile ?P t) = ''}}''" and r: "rest = drop 2 (dropWhile ?P t)"
    by (auto simp: VAR_RE_match_def Let_def split: if_splits)
  have "t = takeWhile ?P t @ take 2 (dropWhile ?P t) @ drop 2 (dropWhile ?P t)"
    by simp
  with n k r have "t = name @ ''}}'' @ rest" by simp
  moreover have "CHR ''}'' \<notin> set name" using n by (auto dest: set_takeWhileD)
  ultimately show "s = ''{{'' @ name @ ''}}'' @ rest \<and> name \<noteq> [] \<and> CHR ''}'' \<notin> set name"
    using s ne by simp
next
  assume a: "s = ''{{'' @ name @ ''}}'' @ rest \<and> name \<noteq> [] \<and> CHR ''}'' \<notin> set name"
  let ?P = "\<lambda>c. c \<noteq> CHR ''}''"
  from a have all: "\<forall>x\<in>set name. ?P x" by auto
  have tw: "takeWhile ?P (name @ ''}}'' @ rest) = name"
    using all by simp
  have dw: "dropWhile ?P (name @ ''}}'' @ rest) = ''}}'' @ rest"
    using all by simp
  from a tw dw show "VAR_RE_match s = Some (name, rest)"
    by (simp add: VAR_RE_match_def)
qed


lemma replace_VAR_RE_Nil: "replace_VAR_RE f [] = Inr []"
  by (simp add: replace_VAR_RE_def)

lemma replace_VAR_RE_match:
  "VAR_RE_match (c # s) = Some (name, rest) \<Longrightarrow>
   replace_VAR_RE f (c # s) =
     (case f name of
        Inl e \<Rightarrow> Inl e
      | Inr r \<Rightarrow> (case replace_VAR_RE f rest of Inl e \<Rightarrow> Inl e | Inr out \<Rightarrow> Inr (r @ out)))"
  unfolding replace_VAR_RE_def by simp

lemma replace_VAR_RE_lit:
  "VAR_RE_match (c # s) = None \<Longrightarrow>
   replace_VAR_RE f (c # s) =
     (case replace_VAR_RE f s of Inl e \<Rightarrow> Inl e | Inr out \<Rightarrow> Inr (c # out))"
  unfolding replace_VAR_RE_def by simp

lemma evalFilter_Nil: "evalFilter [] vars = Inr []"
  by (simp add: evalFilter_def replace_VAR_RE_Nil)

lemma evalFilter_match:
  assumes "VAR_RE_match (c # s) = Some (name, rest)"
  shows "evalFilter (c # s) vars =
     (case vars name of
        None \<Rightarrow> Inl (InvalidVariable name)
      | Some v \<Rightarrow> (case evalFilter rest vars of Inl e \<Rightarrow> Inl e | Inr out \<Rightarrow> Inr (escape v @ out)))"
  unfolding evalFilter_def replace_VAR_RE_match [OF assms]
  by (simp split: option.splits)

lemma evalFilter_no_match:
  assumes "VAR_RE_match (c # s) = None"
  shows "evalFilter (c # s) vars =
     (case evalFilter s vars of Inl e \<Rightarrow> Inl e | Inr out \<Rightarrow> Inr (c # out))"
  unfolding evalFilter_def replace_VAR_RE_lit [OF assms] by simp

lemma evalFilter_empty_name: "evalFilter ''{{}}'' vars = Inr ''{{}}''"
  by (simp add: evalFilter_def replace_VAR_RE_def VAR_RE_match_def)

text \<open>
  Claim C10.  The template engine replaces exactly the substrings made of two opening
  braces, one or more characters other than a closing brace, and two closing braces.
  Read from left to right: the empty template renders to itself; a template that
  begins with such a substring has it replaced by the escaped value of its name (or the
  rendering fails when the name has no value) and the rest rendered in the same way; a
  template that does not begin with such a substring keeps its first character and has
  the rest rendered in the same way.  In particular the literal \<open>{{}}\<close>, whose name
  would be empty, is left as it is under every variable set and raises no error.  (The
  literal has four characters.)
\<close>

theorem evalFilter_replaces_exactly:
  "evalFilter [] vars = Inr [] \<and>
   (\<forall>name rest. name \<noteq> [] \<and> CHR ''}'' \<notin> set name \<longrightarrow>
      evalFilter (''{{'' @ name @ ''}}'' @ rest) vars =
        (case vars name of
           None \<Rightarrow> Inl (InvalidVariable name)
         | Some v \<Rightarrow> (case evalFilter rest vars of
                        Inl e \<Rightarrow> Inl e
                      | Inr out \<Rightarrow> Inr (escape v @ out)))) \<and>
   (\<forall>c s. (\<forall>name rest. c # s = ''{{'' @ name @ ''}}'' @ rest \<longrightarrow>
                          name = [] \<or> CHR ''}'' \<in> set name) \<longrightarrow>
      evalFilter (c # s) vars =
        (case evalFilter s vars of Inl e \<Rightarrow> Inl e | Inr out \<Rightarrow> Inr (c # out))) \<and>
   evalFilter ''{{}}'' vars = Inr ''{{}}''"
proof (intro conjI allI impI)
  show "evalFilter [] vars = Inr []" by (rule evalFilter_Nil)
next
  fix name rest
  assume a: "name \<noteq> [] \<and> CHR ''}'' \<notin> set name"
  then have "VAR_RE_match (''{{'' @ name @ ''}}'' @ rest) = Some (name, rest)"
    by (simp add: VAR_RE_match_form)
  then have "VAR_RE_match (CHR ''{'' # (CHR ''{'' # name @ ''}}'' @ rest)) = Some (name, rest)"
    by simp
  from evalFilter_match [OF this]
  show "evalFilter (''{{'' @ name @ ''}}'' @ rest) vars =
        (case vars name of
           None \<Rightarrow> Inl (InvalidVariable name)
         | Some v \<Rightarrow> (case evalFilter rest vars of
                        Inl e \<Rightarrow> Inl e
                      | Inr out \<Rightarrow> Inr (escape v @ out)))"
    by simp
next
  fix c s
  assume a: "\<forall>name rest. c # s = ''{{'' @ name @ ''}}'' @ rest \<longrightarrow>
                          name = [] \<or> CHR ''}'' \<in> set name"
  have "VAR_RE_match (c # s) = None"
  proof (cases "VAR_RE_match (c # s)")
    case None
    then show ?thesis .
  next
    case (Some p)
    obtain name rest where "p = (name, rest)" by (cases p)
    with Some have "VAR_RE_match (c # s) = Some (name, rest)" by simp
    then have "c # s = ''{{'' @ name @ ''}}'' @ rest \<and> name \<noteq> [] \<and> CHR ''}'' \<notin> set name"
      by (rule iffD1 [OF VAR_RE_match_form])
    with a show ?thesis by blast
  qed
  then show "evalFilter (c # s) vars =
        (case evalFilter s vars of Inl e \<Rightarrow> Inl e | Inr out \<Rightarrow> Inr (c # out))"
    by (rule evalFilter_no_match)
next
  show "evalFilter ''{{}}'' vars = Inr ''{{}}''" by (rule evalFilter_empty_name)
qed

text \<open>
  The three cases at work on \<open>{{name}})\<close> with \<open>name\<close> set to \<open>bob\<close>: the
  placeholder is replaced, the parenthesis after it is kept, and the end is reached.
\<close>

theorem evalFilter_replaces_exactly_witness:
  "''name'' \<noteq> [] \<and> CHR ''}'' \<notin> set ''name'' \<and>
   evalFilter ''{{name}})'' [''name'' \<mapsto> ''bob''] = Inr ''bob)'' \<and>
   evalFilter ''{{}}'' [''name'' \<mapsto> ''bob''] = Inr ''{{}}''"
proof -
  let ?vars = "[''name'' \<mapsto> ''bob'']"
  note t = evalFilter_replaces_exactly [of ?vars]
  have n: "''name'' \<noteq> [] \<and> CHR ''}'' \<notin> set ''name''" by simp
  from t have e: "evalFilter [] ?vars = Inr []" by blast
  from t have "\<forall>c s. (\<forall>name rest. c # s = ''{{'' @ name @ ''}}'' @ rest \<longrightarrow>
                          name = [] \<or> CHR ''}'' \<in> set name) \<longrightarrow>
      evalFilter (c # s) ?vars =
        (case evalFilter s ?vars of Inl e \<Rightarrow> Inl e | Inr out \<Rightarrow> Inr (c # out))"
    by blast
  then have "(\<forall>name rest. CHR '')'' # [] = ''{{'' @ name @ ''}}'' @ rest \<longrightarrow>
                          name = [] \<or> CHR ''}'' \<in> set name) \<longrightarrow>
      evalFilter (CHR '')'' # []) ?vars =
        (case evalFilter [] ?vars of Inl e \<Rightarrow> Inl e | Inr out \<Rightarrow> Inr (CHR '')'' # out))"
    by blast
  with e have p: "evalFilter '')'' ?vars = Inr '')''" by simp
  from t have "\<forall>name rest. name \<noteq> [] \<and> CHR ''}'' \<notin> set name \<longrightarrow>
      evalFilter (''{{'' @ name @ ''}}'' @ rest) ?vars =
        (case ?vars name of
           None \<Rightarrow> Inl (InvalidVariable name)
         | Some v \<Rightarrow> (case evalFilter rest ?vars of
                        Inl e \<Rightarrow> Inl e
                      | Inr out \<Rightarrow> Inr (escape v @ out)))"
    by blast
  then have "''name'' \<noteq> [] \<and> CHR ''}'' \<notin> set ''name'' \<longrightarrow>
      evalFilter (''{{'' @ ''name'' @ ''}}'' @ '')'') ?vars =
        (case ?vars ''name'' of
           None \<Rightarrow> Inl (InvalidVariable ''name'')
         | Some v \<Rightarrow> (case evalFilter '')'' ?vars of
                        Inl e \<Rightarrow> Inl e
                      | Inr out \<Rightarrow> Inr (escape v @ out)))"
    by blast
  with n p have "evalFilter ''{{name}})'' ?vars = Inr ''bob)''"
    by (simp add: escape_def escape_char_def)
  moreover from t have "evalFilter ''{{}}'' ?vars = Inr ''{{}}''" by blast
  ultimately show ?thesis using n by blast
qed

section \<open>Missing variables\<close>




section \<open>Rendered filters\<close>









subsection \<open>Escaped values\<close>




















section \<open>Configuring the plugin\<close>







section \<open>The loop over the entries\<close>

lemma try_entries_never_rejected:
  "snd (try_entries client k name pw entries) \<noteq> Rejected e"
  by (induction entries arbitrary: k) (auto simp: split_beta split: promise.splits)

lemma try_entries_rejected_step:
  "bind_reply client k (objectName entry) pw = Rejected err \<Longrightarrow>
   try_entries client k name pw (entry # entries) =
     (Log (AttemptBind (objectName entry)) # Bind (objectName entry) pw
        # Log (BindFailed (objectName entry) err)
        # fst (try_entries client (Suc k) name pw entries),
      snd (try_entries client (Suc k) name pw entries))"
  by (simp add: split_beta)

text \<open>
  The binds of the loop are those of a prefix of the entries, in their order, and every
  bind but the last one made was rejected.
\<close>

lemma try_entries_binds_prefix:
  "\<exists>n\<le>length entries.
     filter is_bind (fst (try_entries client k name pw entries)) =
       map (\<lambda>e. Bind (objectName e) pw) (take n entries) \<and>
     (\<forall>j. Suc j < n \<longrightarrow>
        (\<exists>e. bind_reply client (k + j) (objectName (entries ! j)) pw = Rejected e))"
proof (induction entries arbitrary: k)
  case Nil
  show ?case by (simp add: is_bind_def)
next
  case (Cons entry entries)
  from Cons [of "Suc k"] obtain n where n: "n \<le> length entries"
    "filter is_bind (fst (try_entries client (Suc k) name pw entries)) =
       map (\<lambda>e. Bind (objectName e) pw) (take n entries)"
    "\<forall>j. Suc j < n \<longrightarrow>
        (\<exists>e. bind_reply client (Suc k + j) (objectName (entries ! j)) pw = Rejected e)"
    by blast
  show ?case
  proof (cases "bind_reply client k (objectName entry) pw")
    case (Resolved u)
    then have "filter is_bind (fst (try_entries client k name pw (entry # entries))) =
       map (\<lambda>e. Bind (objectName e) pw) (take (Suc 0) (entry # entries))"
      by (simp add: is_bind_def)
    then show ?thesis by (intro exI [of _ "Suc 0"]) simp
  next
    case (Rejected err)
    then have b: "filter is_bind (fst (try_entries client k name pw (entry # entries))) =
       map (\<lambda>e. Bind (objectName e) pw) (take (Suc n) (entry # entries))"
      using n(2) by (simp add: is_bind_def split_beta)
    have "\<exists>e. bind_reply client (k + j) (objectName ((entry # entries) ! j)) pw = Rejected e"
      if "Suc j < Suc n" for j
    proof (cases j)
      case 0
      with Rejected show ?thesis by simp
    next
      case (Suc j')
      with that have "Suc j' < n" by simp
      with n(3) Suc show ?thesis by simp
    qed
    with b n(1) show ?thesis by (intro exI [of _ "Suc n"]) simp
  next
    case Pending
    then have "filter is_bind (fst (try_entries client k name pw (entry # entries))) =
       map (\<lambda>e. Bind (objectName e) pw) (take (Suc 0) (entry # entries))"
      by (simp add: is_bind_def)
    then show ?thesis by (intro exI [of _ "Suc 0"]) simp
  qed
qed

lemma try_entries_first_accepting:
  assumes "i < length entries"
    and "bind_reply client (k + i) (objectName (entries ! i)) pw = Resolved ()"
    and "\<forall>j<i. \<exists>e. bind_reply client (k + j) (objectName (entries ! j)) pw = Rejected e"
  shows "snd (try_entries client k name pw entries) = Resolved (Some name) \<and>
         filter is_bind (fst (try_entries client k name pw entries)) =
           map (\<lambda>e. Bind (objectName e) pw) (take (Suc i) entries)"
  using assms
proof (induction entries arbitrary: k i)
  case Nil
  then show ?case by simp
next
  case (Cons entry entries)
  show ?case
  proof (cases i)
    case 0
    with Cons.prems(2) show ?thesis by (simp add: is_bind_def)
  next
    case (Suc i')
    from Cons.prems(3) Suc obtain err where
      err: "bind_reply client k (objectName entry) pw = Rejected err"
      by (auto dest: spec [of _ 0])
    have a: "i' < length entries" using Cons.prems(1) Suc by simp
    have b: "bind_reply client (Suc k + i') (objectName (entries ! i')) pw = Resolved ()"
      using Cons.prems(2) Suc by simp
    have c: "\<forall>j<i'. \<exists>e. bind_reply client (Suc k + j) (objectName (entries ! j)) pw = Rejected e"
    proof (intro allI impI)
      fix j assume "j < i'"
      then have "Suc j < i" using Suc by simp
      with Cons.prems(3) have
        "\<exists>e. bind_reply client (k + Suc j) (objectName ((entry # entries) ! Suc j)) pw = Rejected e"
        by blast
      then show "\<exists>e. bind_reply client (Suc k + j) (objectName (entries ! j)) pw = Rejected e"
        by simp
    qed
    from Cons.IH [OF a b c] err Suc show ?thesis
      by (simp add: is_bind_def split_beta)
  qed
qed

lemma try_entries_exhausted:
  assumes "\<forall>j<length entries.
             \<exists>e. bind_reply client (k + j) (objectName (entries ! j)) pw = Rejected e"
  shows "snd (try_entries client k name pw entries) = Resolved None \<and>
         filter is_bind (fst (try_entries client k name pw entries)) =
           map (\<lambda>e. Bind (objectName e) pw) entries"
  using assms
proof (induction entries arbitrary: k)
  case Nil
  show ?case by (simp add: is_bind_def)
next
  case (Cons entry entries)
  from Cons.prems obtain err where
    err: "bind_reply client k (objectName entry) pw = Rejected err"
    by (auto dest: spec [of _ 0])
  have "\<forall>j<length entries.
          \<exists>e. bind_reply client (Suc k + j) (objectName (entries ! j)) pw = Rejected e"
  proof (intro allI impI)
    fix j assume "j < length entries"
    then have "Suc j < length (entry # entries)" by simp
    with Cons.prems have
      "\<exists>e. bind_reply client (k + Suc j) (objectName ((entry # entries) ! Suc j)) pw = Rejected e"
      by blast
    then show "\<exists>e. bind_reply client (Suc k + j) (objectName (entries ! j)) pw = Rejected e"
      by simp
  qed
  from Cons.IH [OF this] err show ?case
    by (simp add: is_bind_def split_beta)
qed

section \<open>A session up to the end of its search\<close>

lemma is_event_simps:
  "is_search (Search b f)" "\<not> is_search (Log m)" "\<not> is_search (Bind d p)"
  "\<not> is_search AwaitConnect" "\<not> is_search Unbind" "\<not> is_search (CreateClient opts)"
  "is_bind (Bind d p)" "\<not> is_bind (Log m)" "\<not> is_bind (Search b f)"
  "\<not> is_bind AwaitConnect" "\<not> is_bind Unbind" "\<not> is_bind (CreateClient opts)"
  by (simp_all add: is_search_def is_bind_def)

lemma service_bind_bound:
  assumes "service_bound client this k"
  shows "snd (service_bind client this) = Resolved k"
    and "dropWhile (\<lambda>e. \<not> is_search e) (fst (service_bind client this) @ tr) =
         dropWhile (\<lambda>e. \<not> is_search e) tr"
  using assms
  by (auto simp: service_bound_def service_bind_def is_search_def split: option.splits)

lemma search_user_failed:
  assumes "search_ends client this name entries status" and "status \<noteq> 0"
  shows "\<exists>flt. search_user client this name =
           (Log Searching # Search (searchBase this) flt # map (\<lambda>e. Log EntryReceived) entries,
            Rejected (SearchFailed status))"
  using assms
  by (auto simp: search_ends_def search_user_def Let_def
        split: option.splits sum.splits promise.splits)

lemma search_user_ended:
  assumes "search_ends client this name entries 0"
  shows "\<exists>flt. search_user client this name =
           (Log Searching # Search (searchBase this) flt # map (\<lambda>e. Log EntryReceived) entries
              @ [Log (EntriesFound (length entries))],
            Resolved entries)"
  using assms
  by (auto simp: search_ends_def search_user_def Let_def
        split: option.splits sum.splits promise.splits)

lemma filter_received:
  "filter is_bind (map (\<lambda>e. Log EntryReceived) entries) = []"
  by (induction entries) (auto simp: is_bind_def)

lemma authenticate_failed_search:
  assumes "session_searched client this name k entries status" and "status \<noteq> 0"
  shows "snd (authenticate client this \<lparr>username = Some name, user_password = Some pw\<rparr>) =
           Rejected (SearchFailed status)"
    and "binds_after_search
           (fst (authenticate client this \<lparr>username = Some name, user_password = Some pw\<rparr>)) = []"
    and "last (fst (authenticate client this \<lparr>username = Some name, user_password = Some pw\<rparr>)) =
           Unbind"
proof -
  from assms have c: "createClient_throws client (clientOpts this) = None"
    and n: "connect client = Resolved ()" and b: "service_bound client this k"
    and s: "search_ends client this name entries status"
    by (simp_all add: session_searched_def)
  from search_user_failed [OF s assms(2)] obtain flt where
    su: "search_user client this name =
           (Log Searching # Search (searchBase this) flt # map (\<lambda>e. Log EntryReceived) entries,
            Rejected (SearchFailed status))" by blast
  obtain tb where sb: "service_bind client this = (tb, Resolved k)"
    using service_bind_bound(1) [OF b] by (cases "service_bind client this") simp
  have tb: "dropWhile (\<lambda>e. \<not> is_search e) (tb @ tr) = dropWhile (\<lambda>e. \<not> is_search e) tr" for tr
    using service_bind_bound(2) [OF b, of tr] sb by simp
  have tr: "try_block client this name pw =
     (AwaitConnect # tb @ Log Searching # Search (searchBase this) flt
        # map (\<lambda>e. Log EntryReceived) entries, Rejected (SearchFailed status))"
    by (simp add: try_block_def and_then_def n sb su)
  have au: "authenticate client this \<lparr>username = Some name, user_password = Some pw\<rparr> =
     (CreateClient (clientOpts this) # (AwaitConnect # tb @ Log Searching
        # Search (searchBase this) flt # map (\<lambda>e. Log EntryReceived) entries) @ [Unbind],
      Rejected (SearchFailed status))"
    by (simp add: authenticate_def c tr)
  show "snd (authenticate client this \<lparr>username = Some name, user_password = Some pw\<rparr>) =
           Rejected (SearchFailed status)" by (simp add: au)
  show "binds_after_search
           (fst (authenticate client this \<lparr>username = Some name, user_password = Some pw\<rparr>)) = []"
    by (simp add: au binds_after_search_def tb is_event_simps filter_received)
  show "last (fst (authenticate client this \<lparr>username = Some name, user_password = Some pw\<rparr>)) =
           Unbind"
    by (simp add: au)
qed

lemma authenticate_loop:
  assumes "session_searched client this name k entries 0"
  shows "snd (authenticate client this \<lparr>username = Some name, user_password = Some pw\<rparr>) =
           snd (try_entries client k name pw entries)"
    and "binds_after_search
           (fst (authenticate client this \<lparr>username = Some name, user_password = Some pw\<rparr>)) =
         filter is_bind (fst (try_entries client k name pw entries))"
proof -
  from assms have c: "createClient_throws client (clientOpts this) = None"
    and n: "connect client = Resolved ()" and b: "service_bound client this k"
    and s: "search_ends client this name entries 0"
    by (simp_all add: session_searched_def)
  from search_user_ended [OF s] obtain flt where
    su: "search_user client this name =
           (Log Searching # Search (searchBase this) flt # map (\<lambda>e. Log EntryReceived) entries
              @ [Log (EntriesFound (length entries))],
            Resolved entries)" by blast
  obtain tb where sb: "service_bind client this = (tb, Resolved k)"
    using service_bind_bound(1) [OF b] by (cases "service_bind client this") simp
  have tb: "dropWhile (\<lambda>e. \<not> is_search e) (tb @ tr) = dropWhile (\<lambda>e. \<not> is_search e) tr" for tr
    using service_bind_bound(2) [OF b, of tr] sb by simp
  obtain tl r where te: "try_entries client k name pw entries = (tl, r)"
    by (cases "try_entries client k name pw entries")
  have tr: "try_block client this name pw =
     (AwaitConnect # tb @ Log Searching # Search (searchBase this) flt
        # map (\<lambda>e. Log EntryReceived) entries @ Log (EntriesFound (length entries)) # tl, r)"
    by (simp add: try_block_def and_then_def n sb su te)
  have au: "authenticate client this \<lparr>username = Some name, user_password = Some pw\<rparr> =
     (CreateClient (clientOpts this) # (AwaitConnect # tb @ Log Searching
        # Search (searchBase this) flt # map (\<lambda>e. Log EntryReceived) entries
        @ Log (EntriesFound (length entries)) # tl) @ (if r = Pending then [] else [Unbind]), r)"
    by (cases r) (simp_all add: authenticate_def c tr)
  show "snd (authenticate client this \<lparr>username = Some name, user_password = Some pw\<rparr>) =
           snd (try_entries client k name pw entries)" by (simp add: au te)
  show "binds_after_search
           (fst (authenticate client this \<lparr>username = Some name, user_password = Some pw\<rparr>)) =
         filter is_bind (fst (try_entries client k name pw entries))"
    by (simp add: au te binds_after_search_def tb is_event_simps filter_received)
qed

section \<open>The session is closed\<close>






section \<open>Running the scenario\<close>

lemma example_plugin_eq:
  "example_plugin =
     \<lparr>clientOpts = Some \<lparr>url = ''ldap://host'', maxConnections = 5, bindDN = Some ''svc'',
                         bindCredentials = Some ''p'',
                         tlsOptions = \<lparr>rejectUnauthorized = True, ca = None\<rparr>\<rparr>,
      credentials = Some \<lparr>dn = ''svc'', password = ''p''\<rparr>,
      searchBase = Some ''dc=x'', searchFilter = Some ''(uid={{name}})''\<rparr>"
  by (simp add: example_plugin_def configure_def example_conf_def new_AuthLdap_def
        DEFAULTS_checkCertificate_def DEFAULTS_filter_def)

lemmas run_simps =
  authenticate_def try_block_def and_then_def service_bind_def search_user_def
  evalFilter_def replace_VAR_RE_def VAR_RE_match_def escape_def escape_char_def
  example_plugin_eq example_ldap_def example_entries_def
  unauthenticated_bind_ldap_def broken_connection_ldap_def failed_search_ldap_def
  binds_after_search_def is_search_def is_bind_def is_create_def

lemmas searched_simps =
  session_searched_def service_bound_def search_ends_def
  evalFilter_def replace_VAR_RE_def VAR_RE_match_def escape_def escape_char_def
  example_plugin_eq example_ldap_def
  broken_connection_ldap_def failed_search_ldap_def

section \<open>The guard on the credentials\<close>

text \<open>
  Claim C1, as amended.  For every credentials input in which the user name or the
  password is absent (\<^verbatim>\<open>undefined\<close>), the call returns \<^verbatim>\<open>null\<close> at once: it
  gives one message to the logger and does nothing else, so \<^verbatim>\<open>createClient\<close> is not
  called and nothing goes over the network.
\<close>

theorem authenticate_absent_credentials:
  "username creds = None \<or> user_password creds = None \<Longrightarrow>
   authenticate client this creds = ([Log RequireCredentials], Resolved None) \<and>
   \<not> list_ex is_create (fst (authenticate client this creds))"
  by (auto simp: authenticate_def is_create_def split: option.splits)

theorem authenticate_absent_credentials_witness:
  "user_password \<lparr>username = Some ''alice'', user_password = None\<rparr> = None \<and>
   authenticate example_ldap example_plugin \<lparr>username = Some ''alice'', user_password = None\<rparr> =
     ([Log RequireCredentials], Resolved None)"
proof -
  let ?creds = "\<lparr>username = Some ''alice'', user_password = None\<rparr>"
  have h: "username ?creds = None \<or> user_password ?creds = None" by simp
  from authenticate_absent_credentials [OF h, of example_ldap example_plugin]
  show ?thesis by simp
qed

text \<open>
  The claim as stated fails on the empty string, which the guard lets through: with the
  password \<open>''\<close> the client is created and the binds are made, and a server that
  accepts a bind with an empty password makes the call return the user.
\<close>

theorem authenticate_empty_password_counterexample:
  "user_password \<lparr>username = Some ''alice'', user_password = Some ''''\<rparr> = Some '''' \<and>
   list_ex is_create
     (fst (authenticate unauthenticated_bind_ldap example_plugin
             \<lparr>username = Some ''alice'', user_password = Some ''''\<rparr>)) \<and>
   snd (authenticate unauthenticated_bind_ldap example_plugin
          \<lparr>username = Some ''alice'', user_password = Some ''''\<rparr>) = Resolved (Some ''alice'')"
  by (simp add: run_simps)

section \<open>Errors of the binds in the loop\<close>

text \<open>
  Claim C2, as amended.  During the loop over the entries every error raised by the bind
  of an entry is absorbed, a protocol rejection and a transport failure alike: the error
  is given to the logger and the loop goes on with the next entry.  The loop never ends
  in an error, and once the search has ended with success the call does not either.
\<close>

theorem try_entries_absorbs_every_error:
  "(\<forall>e. snd (try_entries client k name pw entries) \<noteq> Rejected e) \<and>
   (\<forall>err. bind_reply client k (objectName entry) pw = Rejected err \<longrightarrow>
      try_entries client k name pw (entry # entries) =
        (Log (AttemptBind (objectName entry)) # Bind (objectName entry) pw
           # Log (BindFailed (objectName entry) err)
           # fst (try_entries client (Suc k) name pw entries),
         snd (try_entries client (Suc k) name pw entries))) \<and>
   (session_searched client this name k entries 0 \<longrightarrow>
      (\<forall>e. snd (authenticate client this \<lparr>username = Some name, user_password = Some pw\<rparr>)
             \<noteq> Rejected e))"
  using try_entries_never_rejected [of client k name pw entries]
    try_entries_rejected_step [of client k entry pw _ name entries]
    authenticate_loop(1) [of client this name k entries pw]
  by auto

text \<open>
  A connection that breaks on the bind of the first entry: the loop goes on, and the
  second entry authenticates the user.
\<close>

theorem try_entries_absorbs_every_error_witness:
  "bind_reply broken_connection_ldap 1 ''uid=alice,dc=x'' ''secret'' =
     Rejected (ConnectionError ''ECONNRESET'') \<and>
   snd (try_entries broken_connection_ldap 1 ''alice'' ''secret'' example_entries) =
     Resolved (Some ''alice'') \<and>
   session_searched broken_connection_ldap example_plugin ''alice'' 1 example_entries 0 \<and>
   snd (authenticate broken_connection_ldap example_plugin
          \<lparr>username = Some ''alice'', user_password = Some ''secret''\<rparr>) \<noteq>
     Rejected (ConnectionError ''ECONNRESET'')"
proof -
  let ?e1 = "\<lparr>objectName = ''uid=alice,dc=x'', attributes = []\<rparr>"
  let ?rest = "[\<lparr>objectName = ''uid=alice2,dc=x'', attributes = []\<rparr>,
                \<lparr>objectName = ''uid=alice3,dc=x'', attributes = []\<rparr>]"
  note t = try_entries_absorbs_every_error [of broken_connection_ldap 1 "''alice''" "''secret''"
      ?rest ?e1 example_plugin]
  have r: "bind_reply broken_connection_ldap 1 ''uid=alice,dc=x'' ''secret'' =
     Rejected (ConnectionError ''ECONNRESET'')"
    by (simp add: broken_connection_ldap_def)
  from t r have "try_entries broken_connection_ldap 1 ''alice'' ''secret'' (?e1 # ?rest) =
        (Log (AttemptBind (objectName ?e1)) # Bind (objectName ?e1) ''secret''
           # Log (BindFailed (objectName ?e1) (ConnectionError ''ECONNRESET''))
           # fst (try_entries broken_connection_ldap (Suc 1) ''alice'' ''secret'' ?rest),
         snd (try_entries broken_connection_ldap (Suc 1) ''alice'' ''secret'' ?rest))"
    by simp
  then have a: "snd (try_entries broken_connection_ldap 1 ''alice'' ''secret'' example_entries) =
     Resolved (Some ''alice'')"
    by (simp add: example_entries_def broken_connection_ldap_def example_ldap_def)
  have s: "session_searched broken_connection_ldap example_plugin ''alice'' 1 example_entries 0"
    by (simp add: searched_simps)
  note t' = try_entries_absorbs_every_error [of broken_connection_ldap 1 "''alice''" "''secret''"
      example_entries ?e1 example_plugin]
  from t' s have "snd (authenticate broken_connection_ldap example_plugin
          \<lparr>username = Some ''alice'', user_password = Some ''secret''\<rparr>) \<noteq>
     Rejected (ConnectionError ''ECONNRESET'')"
    by blast
  with r a s show ?thesis by blast
qed

text \<open>
  The claim as stated fails: a transport failure of the bind of the first entry is not
  propagated; the second entry is tried and the call returns the user.
\<close>

theorem connection_error_absorbed_counterexample:
  "bind_reply broken_connection_ldap 1 ''uid=alice,dc=x'' ''secret'' =
     Rejected (ConnectionError ''ECONNRESET'') \<and>
   snd (authenticate broken_connection_ldap example_plugin
          \<lparr>username = Some ''alice'', user_password = Some ''secret''\<rparr>) =
     Resolved (Some ''alice'') \<and>
   binds_after_search
     (fst (authenticate broken_connection_ldap example_plugin
             \<lparr>username = Some ''alice'', user_password = Some ''secret''\<rparr>)) =
     [Bind ''uid=alice,dc=x'' ''secret'', Bind ''uid=alice2,dc=x'' ''secret'']"
  by (simp add: run_simps)

section \<open>Closing the session\<close>



section \<open>The first entry that accepts the password\<close>

text \<open>
  Claim C4.  In a call whose search has ended with success and delivered \<open>entries\<close>,
  the binds made after the search are \<^verbatim>\<open>bind (entry.objectName, password)\<close> on a
  prefix of the entries, in the order in which the server delivered them; every bind
  before the last one made was rejected, so at most one bind of the loop succeeds; and
  if the entry at position \<open>i\<close> is the first one to accept the password, the call
  returns the user after exactly \<open>i + 1\<close> binds, so that no later entry is tried.
\<close>

theorem authenticate_first_match_wins:
  assumes s: "session_searched client this name k entries 0"
    and a: "authenticate client this \<lparr>username = Some name, user_password = Some pw\<rparr> =
              (trace, outcome)"
  shows "(\<exists>n\<le>length entries.
            binds_after_search trace = map (\<lambda>e. Bind (objectName e) pw) (take n entries) \<and>
            (\<forall>j. Suc j < n \<longrightarrow>
               (\<exists>e. bind_reply client (k + j) (objectName (entries ! j)) pw = Rejected e))) \<and>
         (\<forall>i<length entries.
            bind_reply client (k + i) (objectName (entries ! i)) pw = Resolved () \<and>
            (\<forall>j<i. \<exists>e. bind_reply client (k + j) (objectName (entries ! j)) pw = Rejected e)
            \<longrightarrow>
            outcome = Resolved (Some name) \<and>
            binds_after_search trace = map (\<lambda>e. Bind (objectName e) pw) (take (Suc i) entries))"
proof -
  from authenticate_loop [OF s, of pw] a
  have o: "outcome = snd (try_entries client k name pw entries)"
    and b: "binds_after_search trace = filter is_bind (fst (try_entries client k name pw entries))"
    by simp_all
  have prefix: "\<exists>n\<le>length entries.
            binds_after_search trace = map (\<lambda>e. Bind (objectName e) pw) (take n entries) \<and>
            (\<forall>j. Suc j < n \<longrightarrow>
               (\<exists>e. bind_reply client (k + j) (objectName (entries ! j)) pw = Rejected e))"
    using try_entries_binds_prefix [of entries client k name pw] b by simp
  have first: "outcome = Resolved (Some name) \<and>
       binds_after_search trace = map (\<lambda>e. Bind (objectName e) pw) (take (Suc i) entries)"
    if i: "i < length entries"
      and f: "bind_reply client (k + i) (objectName (entries ! i)) pw = Resolved () \<and>
        (\<forall>j<i. \<exists>e. bind_reply client (k + j) (objectName (entries ! j)) pw = Rejected e)"
    for i
  proof -
    from f have f1: "bind_reply client (k + i) (objectName (entries ! i)) pw = Resolved ()"
      and f2: "\<forall>j<i. \<exists>e. bind_reply client (k + j) (objectName (entries ! j)) pw = Rejected e"
      by simp_all
    from try_entries_first_accepting [OF i f1 f2, of name] o b show ?thesis by simp
  qed
  from prefix first show ?thesis by blast
qed

text \<open>
  The scenario: of three entries only the second accepts \<open>secret\<close>; the user is
  authenticated after two binds and the third entry is never tried.
\<close>

theorem authenticate_first_match_wins_witness:
  "session_searched example_ldap example_plugin ''alice'' 1 example_entries 0 \<and>
   length example_entries = 3 \<and>
   bind_reply example_ldap (1 + 1) (objectName (example_entries ! 1)) ''secret'' = Resolved () \<and>
   bind_reply example_ldap (1 + 0) (objectName (example_entries ! 0)) ''secret'' =
     Rejected (BindRejected ''Invalid Credentials'') \<and>
   snd (authenticate example_ldap example_plugin
          \<lparr>username = Some ''alice'', user_password = Some ''secret''\<rparr>) =
     Resolved (Some ''alice'') \<and>
   binds_after_search
     (fst (authenticate example_ldap example_plugin
             \<lparr>username = Some ''alice'', user_password = Some ''secret''\<rparr>)) =
     [Bind ''uid=alice,dc=x'' ''secret'', Bind ''uid=alice2,dc=x'' ''secret'']"
proof -
  define run where "run = authenticate example_ldap example_plugin
             \<lparr>username = Some ''alice'', user_password = Some ''secret''\<rparr>"
  have a: "authenticate example_ldap example_plugin
             \<lparr>username = Some ''alice'', user_password = Some ''secret''\<rparr> = (fst run, snd run)"
    by (simp add: run_def)
  have s: "session_searched example_ldap example_plugin ''alice'' 1 example_entries 0"
    by (simp add: searched_simps)
  have l: "length example_entries = 3" by (simp add: example_entries_def)
  have r1: "bind_reply example_ldap (1 + 1) (objectName (example_entries ! 1)) ''secret'' =
      Resolved ()"
    by (simp add: example_ldap_def example_entries_def)
  have r0: "bind_reply example_ldap (1 + 0) (objectName (example_entries ! 0)) ''secret'' =
      Rejected (BindRejected ''Invalid Credentials'')"
    by (simp add: example_ldap_def example_entries_def)
  have before: "\<forall>j<1. \<exists>e.
      bind_reply example_ldap (1 + j) (objectName (example_entries ! j)) ''secret'' = Rejected e"
    using r0 by simp
  have i: "(1::nat) < length example_entries" by (simp add: l)
  from authenticate_first_match_wins [OF s a] i r1 before
  have "snd run = Resolved (Some ''alice'') \<and>
     binds_after_search (fst run) =
       map (\<lambda>e. Bind (objectName e) ''secret'') (take (Suc 1) example_entries)"
    by blast
  then have "snd run = Resolved (Some ''alice'') \<and>
     binds_after_search (fst run) =
       [Bind ''uid=alice,dc=x'' ''secret'', Bind ''uid=alice2,dc=x'' ''secret'']"
    by (simp add: example_entries_def)
  with s l r1 r0 show ?thesis unfolding run_def by blast
qed

section \<open>No entry accepts the password\<close>

text \<open>
  Claim C5.  In a call whose search has ended with success and delivered \<open>N\<close>
  entries, if the bind of every entry is rejected, the call makes exactly \<open>N\<close> binds
  after the search, one for each entry in order, and returns \<^verbatim>\<open>null\<close>; it throws
  no error.
\<close>

theorem authenticate_exhausted:
  assumes s: "session_searched client this name k entries 0"
    and r: "\<forall>j<length entries.
              \<exists>e. bind_reply client (k + j) (objectName (entries ! j)) pw = Rejected e"
    and a: "authenticate client this \<lparr>username = Some name, user_password = Some pw\<rparr> =
              (trace, outcome)"
  shows "outcome = Resolved None \<and>
         binds_after_search trace = map (\<lambda>e. Bind (objectName e) pw) entries \<and>
         length (binds_after_search trace) = length entries"
proof -
  from authenticate_loop [OF s, of pw] a
  have o: "outcome = snd (try_entries client k name pw entries)"
    and b: "binds_after_search trace = filter is_bind (fst (try_entries client k name pw entries))"
    by simp_all
  from try_entries_exhausted [OF r, of name] o b show ?thesis by simp
qed

text \<open>The scenario with a wrong password: three binds, then \<^verbatim>\<open>null\<close>.\<close>

theorem authenticate_exhausted_witness:
  "session_searched example_ldap example_plugin ''alice'' 1 example_entries 0 \<and>
   snd (authenticate example_ldap example_plugin
          \<lparr>username = Some ''alice'', user_password = Some ''wrong''\<rparr>) = Resolved None \<and>
   binds_after_search
     (fst (authenticate example_ldap example_plugin
             \<lparr>username = Some ''alice'', user_password = Some ''wrong''\<rparr>)) =
     [Bind ''uid=alice,dc=x'' ''wrong'', Bind ''uid=alice2,dc=x'' ''wrong'',
      Bind ''uid=alice3,dc=x'' ''wrong''] \<and>
   length (binds_after_search
     (fst (authenticate example_ldap example_plugin
             \<lparr>username = Some ''alice'', user_password = Some ''wrong''\<rparr>))) = 3"
proof -
  define run where "run = authenticate example_ldap example_plugin
             \<lparr>username = Some ''alice'', user_password = Some ''wrong''\<rparr>"
  have a: "authenticate example_ldap example_plugin
             \<lparr>username = Some ''alice'', user_password = Some ''wrong''\<rparr> = (fst run, snd run)"
    by (simp add: run_def)
  have s: "session_searched example_ldap example_plugin ''alice'' 1 example_entries 0"
    by (simp add: searched_simps)
  have r: "\<forall>j<length example_entries. \<exists>e.
      bind_reply example_ldap (1 + j) (objectName (example_entries ! j)) ''wrong'' = Rejected e"
    by (simp add: example_ldap_def)
  from authenticate_exhausted [OF s r a]
  have "snd run = Resolved None \<and>
     binds_after_search (fst run) = map (\<lambda>e. Bind (objectName e) ''wrong'') example_entries \<and>
     length (binds_after_search (fst run)) = length example_entries"
    by blast
  then have "snd run = Resolved None \<and>
     binds_after_search (fst run) =
       [Bind ''uid=alice,dc=x'' ''wrong'', Bind ''uid=alice2,dc=x'' ''wrong'',
        Bind ''uid=alice3,dc=x'' ''wrong''] \<and>
     length (binds_after_search (fst run)) = 3"
    by (simp add: example_entries_def)
  with s show ?thesis unfolding run_def by blast
qed

section \<open>A search that fails\<close>

text \<open>
  Claim C8.  In a call whose search response ends with a status other than zero, the
  call throws the search error with that status to its caller, whatever entries the
  response delivered before; no bind is made after the search; and the session is
  closed.
\<close>

theorem authenticate_search_failed:
  assumes s: "session_searched client this name k entries status"
    and f: "status \<noteq> 0"
    and a: "authenticate client this \<lparr>username = Some name, user_password = Some pw\<rparr> =
              (trace, outcome)"
  shows "outcome = Rejected (SearchFailed status) \<and>
         binds_after_search trace = [] \<and>
         last trace = Unbind"
  using authenticate_failed_search [OF s f, of pw] a by simp

text \<open>
  The scenario with a response that delivers its three entries and ends with status 32.
\<close>

theorem authenticate_search_failed_witness:
  "session_searched failed_search_ldap example_plugin ''alice'' 1 example_entries 32 \<and>
   (32::nat) \<noteq> 0 \<and> example_entries \<noteq> [] \<and>
   snd (authenticate failed_search_ldap example_plugin
          \<lparr>username = Some ''alice'', user_password = Some ''secret''\<rparr>) =
     Rejected (SearchFailed 32) \<and>
   binds_after_search
     (fst (authenticate failed_search_ldap example_plugin
             \<lparr>username = Some ''alice'', user_password = Some ''secret''\<rparr>)) = []"
proof -
  define run where "run = authenticate failed_search_ldap example_plugin
             \<lparr>username = Some ''alice'', user_password = Some ''secret''\<rparr>"
  have a: "authenticate failed_search_ldap example_plugin
             \<lparr>username = Some ''alice'', user_password = Some ''secret''\<rparr> = (fst run, snd run)"
    by (simp add: run_def)
  have s: "session_searched failed_search_ldap example_plugin ''alice'' 1 example_entries 32"
    by (simp add: searched_simps)
  have f: "(32::nat) \<noteq> 0" by simp
  have e: "example_entries \<noteq> []" by (simp add: example_entries_def)
  from authenticate_search_failed [OF s f a] s f e show ?thesis
    unfolding run_def by blast
qed

end
